theory Spec2Isabelle
  imports Complex_Main
begin

section \<open>Values, dictionaries, errors and the log\<close>

text \<open>
  The processor of \<^verbatim>\<open>api/services/openet_service.py\<close> works on the decoded JSON of the
  provider: a list of dictionaries such as \<^verbatim>\<open>{"time": "2020-01-01", "et": 31}\<close>.
  A field of such a dictionary holds \<^verbatim>\<open>None\<close>, a number or a string.
  A number is written as a real: an integer as itself, a float as the decimal it prints
  as. The order of the floats is then the order of the reals, and a literal of the source
  (\<^verbatim>\<open>0.1\<close>, \<^verbatim>\<open>30\<close>, \<^verbatim>\<open>0.0393701\<close>) is the real it spells, so every comparison of the
  source is the comparison of the model. The arithmetic of the floats is not the
  arithmetic of the reals; the section on numbers says how it enters the model.
\<close>

datatype pyval = PNone | PNum real | PStr string

type_synonym pydict = "string \<rightharpoonup> pyval"

text \<open>The raw response of one variable: a list of records, or something else
  (the error object of the provider is a dictionary).\<close>

datatype raw_data = RawList "pydict list" | RawObject pydict

datatype error = KeyError | TypeError | IndexError

datatype level = WARNING | ERROR

type_synonym log_record = "level \<times> string"

text \<open>A call returns the records it logged, in order, and its value or the
  exception that left it.\<close>

type_synonym 'a outcome = "log_record list \<times> (error + 'a)"

text \<open>\<^verbatim>\<open>d.get(k)\<close>: a missing key reads as \<^verbatim>\<open>None\<close>.\<close>

definition get :: "pydict \<Rightarrow> string \<Rightarrow> pyval" where
  "get d k = (case d k of None \<Rightarrow> PNone | Some v \<Rightarrow> v)"

text \<open>Truth value of an object in a condition.\<close>

fun truthy :: "pyval \<Rightarrow> bool" where
  "truthy PNone = False"
| "truthy (PNum x) = (x \<noteq> 0)"
| "truthy (PStr s) = (s \<noteq> [])"

text \<open>\<^verbatim>\<open>str.lower\<close> and \<^verbatim>\<open>str.upper\<close>, on the ASCII letters.\<close>

definition lower_char :: "char \<Rightarrow> char" where
  "lower_char c =
     (case map_of (zip ''ABCDEFGHIJKLMNOPQRSTUVWXYZ'' ''abcdefghijklmnopqrstuvwxyz'') c of
        None \<Rightarrow> c | Some l \<Rightarrow> l)"

definition upper_char :: "char \<Rightarrow> char" where
  "upper_char c =
     (case map_of (zip ''abcdefghijklmnopqrstuvwxyz'' ''ABCDEFGHIJKLMNOPQRSTUVWXYZ'') c of
        None \<Rightarrow> c | Some u \<Rightarrow> u)"

definition lower :: "string \<Rightarrow> string" where
  "lower s = map lower_char s"

definition upper :: "string \<Rightarrow> string" where
  "upper s = map upper_char s"

section \<open>Numbers\<close>

text \<open>\<^verbatim>\<open>int(x)\<close> truncates towards zero.\<close>

definition py_int :: "real \<Rightarrow> int" where
  "py_int x = (if 0 \<le> x then \<lfloor>x\<rfloor> else \<lceil>x\<rceil>)"

fun is_num :: "pyval \<Rightarrow> bool" where
  "is_num (PNum x) = True"
| "is_num v = False"

fun num_of :: "pyval \<Rightarrow> real" where
  "num_of (PNum x) = x"
| "num_of v = 0"

text \<open>\<^verbatim>\<open>np.array(values)\<close> followed by a reduction: an array that holds a string has
  a string dtype, and every reduction on it raises \<^verbatim>\<open>TypeError\<close>. The callers never
  put \<^verbatim>\<open>None\<close> into the list. The array is the list of the values; what the library
  computes from it is in the record below.\<close>

definition np_array :: "pyval list \<Rightarrow> error + real list" where
  "np_array vs = (if list_all is_num vs then Inr (map num_of vs) else Inl TypeError)"

text \<open>\<^verbatim>\<open>np.max\<close>, \<^verbatim>\<open>np.min\<close> and \<^verbatim>\<open>np.argmax\<close> compare and select, they do not compute.
  They are only called on non-empty arrays: both callers return before them when the
  list of values is empty.\<close>

definition np_max :: "real list \<Rightarrow> real" where
  "np_max xs = foldl max (hd xs) (tl xs)"

definition np_min :: "real list \<Rightarrow> real" where
  "np_min xs = foldl min (hd xs) (tl xs)"

text \<open>\<^verbatim>\<open>np.argmax\<close>: one scan from the left that keeps the best value seen and its
  index, and replaces them only by a strictly larger value.\<close>

primrec argmax_scan :: "real list \<Rightarrow> nat \<Rightarrow> real \<Rightarrow> nat \<Rightarrow> nat" where
  "argmax_scan [] i best best_i = best_i"
| "argmax_scan (x # xs) i best best_i =
     (if best < x then argmax_scan xs (Suc i) x i
      else argmax_scan xs (Suc i) best best_i)"

definition np_argmax :: "real list \<Rightarrow> nat" where
  "np_argmax xs = argmax_scan (tl xs) 1 (hd xs) 0"

subsection \<open>The arithmetic of the library\<close>

text \<open>
  The sums, means, deviations, fits, roundings, products and quotients of the source are
  computed by numpy and by the interpreter, on 64-bit integers and floats: a float sum
  rounds in binary, an integer sum wraps, \<^verbatim>\<open>round\<close> works on the binary value. Their
  results are not those of the arithmetic of the reals, and their code is not in the
  repository. They are the parameters of the model: each function below that computes
  takes the record of them, and a theorem stated for an arbitrary record holds whatever
  they return. An integer and a float of the same value are one number of the model.
  \<^item> \<open>np_sum\<close>, \<open>np_mean\<close>, \<open>np_std\<close>: \<^verbatim>\<open>np.sum\<close>, \<^verbatim>\<open>np.mean\<close>, \<^verbatim>\<open>np.std\<close> of an array;
  \<^item> \<open>np_round\<close>: \<^verbatim>\<open>round(x, n)\<close> of a numpy scalar \<open>x\<close>;
  \<^item> \<open>py_round\<close>: \<^verbatim>\<open>round(x, n)\<close> of a number of the interpreter;
  \<^item> \<open>np_polyfit\<close>: the first coefficient of \<^verbatim>\<open>np.polyfit(x, y, 1)\<close>, the slope;
  \<^item> \<open>f_add\<close>, \<open>f_mul\<close>, \<open>f_div\<close>: \<^verbatim>\<open>+\<close>, \<^verbatim>\<open>*\<close> and \<^verbatim>\<open>/\<close> of two numbers.
\<close>

record numerics =
  np_sum :: "real list \<Rightarrow> real"
  np_mean :: "real list \<Rightarrow> real"
  np_std :: "real list \<Rightarrow> real"
  np_round :: "real \<Rightarrow> nat \<Rightarrow> real"
  py_round :: "real \<Rightarrow> nat \<Rightarrow> real"
  np_polyfit :: "real list \<Rightarrow> real list \<Rightarrow> real"
  f_add :: "real \<Rightarrow> real \<Rightarrow> real"
  f_mul :: "real \<Rightarrow> real \<Rightarrow> real"
  f_div :: "real \<Rightarrow> real \<Rightarrow> real"

text \<open>The built-in \<^verbatim>\<open>sum\<close>: it starts from 0 and adds from the left.\<close>

definition py_sum :: "numerics \<Rightarrow> real list \<Rightarrow> real" where
  "py_sum N xs = foldl (f_add N) 0 xs"

subsection \<open>Exact arithmetic\<close>

text \<open>
  One value of the record, to run the model: the arithmetic of the reals, the rounding
  to the nearest decimal with a tie going to the even neighbour, and for the fit the
  solution of the normal equations. It is the arithmetic the library approximates, not
  the library's. The evaluations below that name it are on whole numbers and on
  decimals that are away from every tie of a rounding.
\<close>

definition round_half_even :: "real \<Rightarrow> int" where
  "round_half_even x =
     (let f = \<lfloor>x\<rfloor>; d = x - of_int f
      in if d < 1 / 2 then f
         else if 1 / 2 < d then f + 1
         else if even f then f else f + 1)"

definition round_decimals :: "real \<Rightarrow> nat \<Rightarrow> real" where
  "round_decimals x n = of_int (round_half_even (x * 10 ^ n)) / 10 ^ n"

definition exact_mean :: "real list \<Rightarrow> real" where
  "exact_mean xs = sum_list xs / real (length xs)"

text \<open>Population standard deviation (the default \<^verbatim>\<open>ddof=0\<close> of \<^verbatim>\<open>np.std\<close>).\<close>

definition exact_std :: "real list \<Rightarrow> real" where
  "exact_std xs = sqrt (exact_mean (map (\<lambda>x. (x - exact_mean xs)\<^sup>2) xs))"

text \<open>The slope and the intercept of the least-squares line, from the normal
  equations.\<close>

definition normal_slope :: "real list \<Rightarrow> real list \<Rightarrow> real" where
  "normal_slope xs ys =
     (let n = real (length xs); sx = sum_list xs; sy = sum_list ys;
          sxx = sum_list (map (\<lambda>x. x * x) xs);
          sxy = sum_list (map (\<lambda>p. fst p * snd p) (zip xs ys))
      in (n * sxy - sx * sy) / (n * sxx - sx * sx))"

definition normal_intercept :: "real list \<Rightarrow> real list \<Rightarrow> real" where
  "normal_intercept xs ys =
     (sum_list ys - normal_slope xs ys * sum_list xs) / real (length xs)"

definition exact :: numerics where
  "exact =
     \<lparr>np_sum = sum_list, np_mean = exact_mean, np_std = exact_std,
      np_round = round_decimals, py_round = round_decimals, np_polyfit = normal_slope,
      f_add = (\<lambda>x y. x + y), f_mul = (\<lambda>x y. x * y), f_div = (\<lambda>x y. x / y)\<rparr>"

section \<open>The series extractor\<close>

text \<open>The formatted label \<^verbatim>\<open>f"{start_date} to {end_date}"\<close> is kept as the pair of
  its two values; \<open>NA\<close> is the label \<^verbatim>\<open>"N/A"\<close>.\<close>

datatype date_range = NA | FromTo pyval pyval

record extracted =
  source :: string
  location :: string
  values_found :: nat
  date_range :: date_range
  mean_entry :: "(string \<times> real) option"
  data_points :: "pydict list"

text \<open>One pass of the loop of \<^verbatim>\<open>_extract_variable_data\<close> over the two lists it
  appends to; its test is \<^verbatim>\<open>if date and value is not None\<close>.\<close>

definition extract_step ::
  "string \<Rightarrow> pydict list \<times> pyval list \<Rightarrow> pydict \<Rightarrow> pydict list \<times> pyval list" where
  "extract_step variable acc item =
     (let date = get item ''time''; value = get item (lower variable)
      in if truthy date \<and> value \<noteq> PNone
         then (fst acc @ [[''date'' \<mapsto> date, upper variable \<mapsto> value]], snd acc @ [value])
         else acc)"

definition extract_loop :: "string \<Rightarrow> pydict list \<Rightarrow> pydict list \<times> pyval list" where
  "extract_loop variable items = foldl (extract_step variable) ([], []) items"

definition extract_variable_data ::
  "numerics \<Rightarrow> raw_data \<Rightarrow> string \<Rightarrow> string \<Rightarrow> extracted outcome" where
  "extract_variable_data N raw variable loc =
     (case raw of
        RawObject obj \<Rightarrow>
          ([(ERROR, ''Unexpected data format for '' @ variable
                     @ ''. Expected list, got <class 'dict'>'')],
           Inr \<lparr>source = ''OpenET'', location = loc, values_found = 0, date_range = NA,
                mean_entry = Some (variable @ ''_mean'', 0), data_points = []\<rparr>)
      | RawList items \<Rightarrow>
          (let (points, values) = extract_loop variable items;
               valid_values = filter (\<lambda>v. v \<noteq> PNone) values;
               logged = (if points = []
                      then [(WARNING, ''No '' @ variable @ '' data found in response'')]
                      else []);
               range = (if points = [] then NA
                        else FromTo (get (hd points) ''date'') (get (last points) ''date''))
           in case (if valid_values = [] then Inr 0
                    else map_sum id (\<lambda>xs. np_round N (np_mean N xs) 3) (np_array valid_values)) of
                Inl e \<Rightarrow> (logged, Inl e)
              | Inr mean_value \<Rightarrow>
                  (logged,
                   Inr \<lparr>source = ''OpenET'', location = loc,
                        values_found = length valid_values, date_range = range,
                        mean_entry =
                          (if lower variable = ''ndvi'' then Some (''ndvi_mean'', mean_value)
                           else if lower variable = ''et'' then Some (''et_mean'', mean_value)
                           else None),
                        data_points = points\<rparr>)))"

section \<open>Calendar dates\<close>

record datetime =
  year :: nat
  month :: nat
  day :: nat

definition is_digit :: "char \<Rightarrow> bool" where
  "is_digit c = (48 \<le> (of_char c :: nat) \<and> (of_char c :: nat) \<le> 57)"

definition digit_val :: "char \<Rightarrow> nat" where
  "digit_val c = of_char c - 48"

definition is_leap :: "nat \<Rightarrow> bool" where
  "is_leap y = (y mod 4 = 0 \<and> (y mod 100 \<noteq> 0 \<or> y mod 400 = 0))"

definition days_in_month :: "nat \<Rightarrow> nat \<Rightarrow> nat" where
  "days_in_month y m =
     (if m = 2 then (if is_leap y then 29 else 28)
      else if m = 4 \<or> m = 6 \<or> m = 9 \<or> m = 11 then 30 else 31)"

text \<open>The month field of the format: one digit \<open>1\<close> to \<open>9\<close>, or two digits
  \<open>01\<close> to \<open>12\<close>.\<close>

fun month_field :: "string \<Rightarrow> nat option" where
  "month_field [a] = (if is_digit a \<and> a \<noteq> CHR ''0'' then Some (digit_val a) else None)"
| "month_field [a, b] =
     (let n = 10 * digit_val a + digit_val b
      in if is_digit a \<and> is_digit b \<and> 1 \<le> n \<and> n \<le> 12 then Some n else None)"
| "month_field s = None"

text \<open>The day field: one digit \<open>1\<close> to \<open>9\<close>, a space and such a digit, or two digits
  \<open>01\<close> to \<open>31\<close>.\<close>

fun day_field :: "string \<Rightarrow> nat option" where
  "day_field [a] = (if is_digit a \<and> a \<noteq> CHR ''0'' then Some (digit_val a) else None)"
| "day_field [a, b] =
     (if a = CHR '' '' then (if is_digit b \<and> b \<noteq> CHR ''0'' then Some (digit_val b) else None)
      else (let n = 10 * digit_val a + digit_val b
            in if is_digit a \<and> is_digit b \<and> 1 \<le> n \<and> n \<le> 31 then Some n else None))"
| "day_field s = None"

text \<open>\<^verbatim>\<open>datetime.strptime(s, '%Y-%m-%d')\<close>: four digits of year, a month field and a
  day field, separated by hyphens, nothing after them, and a date that exists
  (year at least 1, day within the month). \<open>None\<close> is its \<^verbatim>\<open>ValueError\<close>.\<close>

definition strptime :: "string \<Rightarrow> datetime option" where
  "strptime s =
     (let ys = take 4 s; r = drop 4 s
      in if length ys = 4 \<and> list_all is_digit ys \<and> r \<noteq> [] \<and> hd r = CHR ''-''
         then (let ms = takeWhile (\<lambda>c. c \<noteq> CHR ''-'') (tl r);
                   r2 = dropWhile (\<lambda>c. c \<noteq> CHR ''-'') (tl r);
                   y = foldl (\<lambda>n c. 10 * n + digit_val c) 0 ys
               in if r2 = [] then None
                  else (case month_field ms of
                          None \<Rightarrow> None
                        | Some m \<Rightarrow>
                            (case day_field (tl r2) of
                               None \<Rightarrow> None
                             | Some d \<Rightarrow>
                                 if 1 \<le> y \<and> d \<le> days_in_month y m
                                 then Some \<lparr>year = y, month = m, day = d\<rparr>
                                 else None)))
         else None)"

definition digit_char :: "nat \<Rightarrow> char" where
  "digit_char n = ''0123456789'' ! (n mod 10)"

text \<open>\<^verbatim>\<open>d.strftime('%Y-%m-%d')\<close>, the year on four digits as the format is documented
  (every year of the provider's data has four).\<close>

definition strftime :: "datetime \<Rightarrow> string" where
  "strftime d =
     [digit_char (year d div 1000), digit_char (year d div 100),
      digit_char (year d div 10), digit_char (year d)]
     @ ''-'' @ [digit_char (month d div 10), digit_char (month d)]
     @ ''-'' @ [digit_char (day d div 10), digit_char (day d)]"

text \<open>\<^verbatim>\<open>xs[i]\<close>: a negative index counts from the end, an index outside the list
  raises.\<close>

definition index :: "'a list \<Rightarrow> int \<Rightarrow> error + 'a" where
  "index xs i =
     (let k = (if i < 0 then i + int (length xs) else i)
      in if k < 0 \<or> int (length xs) \<le> k then Inl IndexError else Inr (xs ! nat k))"

section \<open>The ET analyzer\<close>

text \<open>An analysis is the empty dictionary \<^verbatim>\<open>{}\<close> or a dictionary with all its fields.\<close>

datatype 'a report = Empty | Fields 'a

record seasonal_totals =
  winter :: real
  spring :: real
  summer :: real
  fall :: real

record et_analysis =
  total_et_mm :: int
  mean_monthly_et_mm :: real
  max_monthly_et_mm :: int
  min_monthly_et_mm :: int
  peak_et_month :: string
  total_et_inches :: real
  growing_season_et_mm :: int
  growing_season_et_inches :: real
  observations :: nat
  date_range_start :: string
  date_range_end :: string
  yearly_totals_mm :: "(nat \<times> real) list"
  seasonal_totals_mm :: seasonal_totals
  monthly_trend :: string
  trend_slope_mm_per_month :: real
  std_dev_mm :: real
  coefficient_of_variation :: real
  consistency :: string
  water_use_classification :: string
  water_use_description :: string

text \<open>The first loop of \<^verbatim>\<open>_analyze_et_data\<close>. The value is appended before the date
  is parsed; a date that does not parse is logged and the loop goes on; a point
  without the key \<^verbatim>\<open>'date'\<close> raises \<^verbatim>\<open>KeyError\<close>, a date that is not a string
  \<^verbatim>\<open>TypeError\<close>.\<close>

fun et_loop ::
  "pydict list \<Rightarrow> pyval list \<Rightarrow> datetime list \<Rightarrow> log_record list
     \<Rightarrow> (pyval list \<times> datetime list) outcome" where
  "et_loop [] et_values dates logged = (logged, Inr (et_values, dates))"
| "et_loop (point # rest) et_values dates logged =
     (case point ''ET'' of
        None \<Rightarrow> et_loop rest et_values dates logged
      | Some PNone \<Rightarrow> et_loop rest et_values dates logged
      | Some v \<Rightarrow>
          (case point ''date'' of
             None \<Rightarrow> (logged, Inl KeyError)
           | Some (PStr s) \<Rightarrow>
               (case strptime s of
                  Some d \<Rightarrow> et_loop rest (et_values @ [v]) (dates @ [d]) logged
                | None \<Rightarrow>
                    et_loop rest (et_values @ [v]) dates
                      (logged @ [(WARNING, ''Invalid date format: '' @ s)]))
           | Some other \<Rightarrow> (logged, Inl TypeError)))"

text \<open>Growing season: April to October.\<close>

definition growing_season :: "(datetime \<times> real) list \<Rightarrow> real list" where
  "growing_season pairs = map snd (filter (\<lambda>p. 4 \<le> month (fst p) \<and> month (fst p) \<le> 10) pairs)"

text \<open>\<^verbatim>\<open>yearly_totals[date.year] += et_val\<close> on a \<^verbatim>\<open>defaultdict(float)\<close>.\<close>

definition yearly_step ::
  "numerics \<Rightarrow> (nat \<rightharpoonup> real) \<Rightarrow> datetime \<times> real \<Rightarrow> (nat \<rightharpoonup> real)" where
  "yearly_step N totals p =
     totals(year (fst p) \<mapsto>
       f_add N (case totals (year (fst p)) of None \<Rightarrow> 0 | Some t \<Rightarrow> t) (snd p))"

definition yearly_totals :: "numerics \<Rightarrow> (datetime \<times> real) list \<Rightarrow> (nat \<times> real) list" where
  "yearly_totals N pairs =
     (let totals = foldl (yearly_step N) Map.empty pairs
      in map (\<lambda>y. (y, py_round N (case totals y of None \<Rightarrow> 0 | Some t \<Rightarrow> t) 0))
             (sort (remdups (map (\<lambda>p. year (fst p)) pairs))))"

definition seasonal_step ::
  "numerics \<Rightarrow> seasonal_totals \<Rightarrow> datetime \<times> real \<Rightarrow> seasonal_totals" where
  "seasonal_step N totals p =
     (let m = month (fst p); et_val = snd p
      in if m = 12 \<or> m = 1 \<or> m = 2 then totals\<lparr>winter := f_add N (winter totals) et_val\<rparr>
         else if m = 3 \<or> m = 4 \<or> m = 5 then totals\<lparr>spring := f_add N (spring totals) et_val\<rparr>
         else if m = 6 \<or> m = 7 \<or> m = 8 then totals\<lparr>summer := f_add N (summer totals) et_val\<rparr>
         else totals\<lparr>fall := f_add N (fall totals) et_val\<rparr>)"

definition seasonal_sums :: "numerics \<Rightarrow> (datetime \<times> real) list \<Rightarrow> seasonal_totals" where
  "seasonal_sums N pairs =
     foldl (seasonal_step N) \<lparr>winter = 0, spring = 0, summer = 0, fall = 0\<rparr> pairs"

definition round_seasons :: "numerics \<Rightarrow> seasonal_totals \<Rightarrow> seasonal_totals" where
  "round_seasons N t =
     \<lparr>winter = py_round N (winter t) 0, spring = py_round N (spring t) 0,
      summer = py_round N (summer t) 0, fall = py_round N (fall t) 0\<rparr>"

text \<open>\<^verbatim>\<open>np.arange(n)\<close>.\<close>

definition arange :: "nat \<Rightarrow> real list" where
  "arange n = map real [0..<n]"

definition trend_of :: "real \<Rightarrow> string" where
  "trend_of slope =
     (if \<bar>slope\<bar> < 0.1 then ''stable''
      else if 0 < slope then ''increasing''
      else ''decreasing'')"

definition consistency_of :: "real \<Rightarrow> string" where
  "consistency_of cv =
     (if cv < 0.3 then ''high'' else if cv < 0.6 then ''moderate'' else ''low'')"

definition water_use :: "real \<Rightarrow> string \<times> string" where
  "water_use mean_monthly =
     (if mean_monthly < 30 then (''low_water_use'', ''Low water consumption'')
      else if mean_monthly < 50 then (''moderate_water_use'', ''Moderate water consumption'')
      else if mean_monthly < 70 then (''high_water_use'', ''High water consumption'')
      else (''very_high_water_use'', ''Significantly high water consumption''))"

definition mm_to_inches :: real where
  "mm_to_inches = 0.0393701"

text \<open>The statistics of \<^verbatim>\<open>_analyze_et_data\<close>, from the two lists the loop built.
  The trend is fitted against \<^verbatim>\<open>np.arange(len(et_values))\<close>; its class is taken from
  the slope before it is rounded.\<close>

definition et_statistics ::
  "numerics \<Rightarrow> pyval list \<Rightarrow> datetime list \<Rightarrow> error + et_analysis" where
  "et_statistics N et_values dates =
     (case np_array et_values of
        Inl e \<Rightarrow> Inl e
      | Inr et_array \<Rightarrow>
          (let total = np_round N (np_sum N et_array) 0;
               mean_monthly = np_round N (np_mean N et_array) 1;
               max_et = np_round N (np_max et_array) 0;
               min_et = np_round N (np_min et_array) 0;
               max_idx = np_argmax et_array
           in case index dates (int max_idx) of
                Inl e \<Rightarrow> Inl e
              | Inr peak \<Rightarrow>
                  (let pairs = zip dates et_array;
                       growing = growing_season pairs;
                       growing_mm =
                         (if growing = [] then 0 else py_round N (py_sum N growing) 0);
                       slope = np_polyfit N (arange (length et_values)) et_array;
                       std_dev = np_round N (np_std N et_array) 1;
                       cv = (if 0 < mean_monthly
                             then np_round N (f_div N std_dev mean_monthly) 2 else 0)
                   in case index dates 0 of
                        Inl e \<Rightarrow> Inl e
                      | Inr first_date \<Rightarrow>
                          (case index dates (- 1) of
                             Inl e \<Rightarrow> Inl e
                           | Inr last_date \<Rightarrow>
                               Inr \<lparr>total_et_mm = py_int total,
                                    mean_monthly_et_mm = mean_monthly,
                                    max_monthly_et_mm = py_int max_et,
                                    min_monthly_et_mm = py_int min_et,
                                    peak_et_month = strftime peak,
                                    total_et_inches =
                                      np_round N (f_mul N total mm_to_inches) 2,
                                    growing_season_et_mm = py_int growing_mm,
                                    growing_season_et_inches =
                                      py_round N (f_mul N growing_mm mm_to_inches) 2,
                                    observations = length et_values,
                                    date_range_start = strftime first_date,
                                    date_range_end = strftime last_date,
                                    yearly_totals_mm = yearly_totals N pairs,
                                    seasonal_totals_mm =
                                      round_seasons N (seasonal_sums N pairs),
                                    monthly_trend =
                                      (if 1 < length et_values then trend_of slope
                                       else ''stable''),
                                    trend_slope_mm_per_month =
                                      (if 1 < length et_values then np_round N slope 3 else 0),
                                    std_dev_mm = std_dev,
                                    coefficient_of_variation = cv,
                                    consistency = consistency_of cv,
                                    water_use_classification = fst (water_use mean_monthly),
                                    water_use_description = snd (water_use mean_monthly)\<rparr>))))"

definition analyze_et_data :: "numerics \<Rightarrow> pydict list \<Rightarrow> et_analysis report outcome" where
  "analyze_et_data N points =
     (if points = [] then ([], Inr Empty)
      else (case et_loop points [] [] [] of
              (logged, Inl e) \<Rightarrow> (logged, Inl e)
            | (logged, Inr (et_values, dates)) \<Rightarrow>
                if et_values = [] then (logged, Inr Empty)
                else (logged, map_sum id Fields (et_statistics N et_values dates))))"

section \<open>The vegetation summarizer\<close>

record vegetation_summary =
  total_observations :: nat
  mean_ndvi :: real
  max_ndvi :: real
  min_ndvi :: real
  std_dev :: real
  vigor_classification :: string
  data_sources :: "string list"

definition ndvi_values :: "pydict list \<Rightarrow> pyval list" where
  "ndvi_values points =
     map (\<lambda>point. get point ''NDVI'') (filter (\<lambda>point. get point ''NDVI'' \<noteq> PNone) points)"

definition vigor_of :: "real \<Rightarrow> string" where
  "vigor_of mean =
     (if mean < 0.2 then ''Sparse or no vegetation''
      else if mean < 0.4 then ''Low vegetation''
      else if mean < 0.6 then ''Moderate vegetation''
      else if mean < 0.8 then ''Healthy vegetation''
      else ''Very healthy/dense vegetation'')"

definition generate_vegetation_summary ::
  "numerics \<Rightarrow> pydict list \<Rightarrow> error + vegetation_summary report" where
  "generate_vegetation_summary N points =
     (if points = [] then Inr Empty
      else if ndvi_values points = [] then Inr Empty
      else (case np_array (ndvi_values points) of
              Inl e \<Rightarrow> Inl e
            | Inr ndvi_array \<Rightarrow>
                Inr (Fields
                  \<lparr>total_observations = length (ndvi_values points),
                   mean_ndvi = np_round N (np_mean N ndvi_array) 3,
                   max_ndvi = np_round N (np_max ndvi_array) 3,
                   min_ndvi = np_round N (np_min ndvi_array) 3,
                   std_dev = np_round N (np_std N ndvi_array) 3,
                   vigor_classification = vigor_of (np_round N (np_mean N ndvi_array) 3),
                   data_sources = [''OpenET'']\<rparr>)))"

section \<open>What the loops compute\<close>

text \<open>The ET values the first loop of the analyzer collects: those of the points
  that have the key \<^verbatim>\<open>'ET'\<close> with a value other than \<^verbatim>\<open>None\<close>.\<close>

definition et_values_of :: "pydict list \<Rightarrow> pyval list" where
  "et_values_of points =
     map (\<lambda>point. get point ''ET'') (filter (\<lambda>point. get point ''ET'' \<noteq> PNone) points)"

text \<open>The date of a point, when it is a string that parses, and the dates the loop
  collects: those that parse, of the points that have an ET value.\<close>

definition date_of :: "pydict \<Rightarrow> datetime option" where
  "date_of point = (case point ''date'' of Some (PStr s) \<Rightarrow> strptime s | _ \<Rightarrow> None)"

definition parsed_dates :: "pydict list \<Rightarrow> datetime list" where
  "parsed_dates points =
     List.map_filter date_of (filter (\<lambda>point. get point ''ET'' \<noteq> PNone) points)"

text \<open>The sum of the squared residuals of the line \<open>y = a * x + b\<close> on the points
  \<open>(x, y)\<close>: what a least-squares fit minimises.\<close>

definition residual_sum :: "real list \<Rightarrow> real list \<Rightarrow> real \<Rightarrow> real \<Rightarrow> real" where
  "residual_sum xs ys a b = sum_list (map (\<lambda>p. (snd p - (a * fst p + b))\<^sup>2) (zip xs ys))"

lemmas date_defs =
  strptime_def is_digit_def digit_val_def days_in_month_def is_leap_def strftime_def
  digit_char_def

lemmas stat_defs =
  et_statistics_def np_array_def np_argmax_def index_def np_max_def np_min_def py_int_def
  py_sum_def

lemmas exact_defs =
  exact_def exact_mean_def round_decimals_def round_half_even_def

subsection \<open>The loop of the extractor\<close>

lemma extract_fold:
  "foldl (extract_step v) (ps, vs) items =
     (ps @ map (\<lambda>item. [''date'' \<mapsto> get item ''time'', upper v \<mapsto> get item (lower v)])
             (filter (\<lambda>item. truthy (get item ''time'') \<and> get item (lower v) \<noteq> PNone) items),
      vs @ map (\<lambda>item. get item (lower v))
             (filter (\<lambda>item. truthy (get item ''time'') \<and> get item (lower v) \<noteq> PNone) items))"
  by (induction items arbitrary: ps vs) (simp_all add: extract_step_def Let_def)

lemma extract_loop_eq:
  "extract_loop v items =
     (map (\<lambda>item. [''date'' \<mapsto> get item ''time'', upper v \<mapsto> get item (lower v)])
          (filter (\<lambda>item. truthy (get item ''time'') \<and> get item (lower v) \<noteq> PNone) items),
      map (\<lambda>item. get item (lower v))
          (filter (\<lambda>item. truthy (get item ''time'') \<and> get item (lower v) \<noteq> PNone) items))"
  by (simp add: extract_loop_def extract_fold)

lemma filter_not_none:
  "filter (\<lambda>x. x \<noteq> PNone)
     (map (\<lambda>item. get item k) (filter (\<lambda>item. P item \<and> get item k \<noteq> PNone) items))
     = map (\<lambda>item. get item k) (filter (\<lambda>item. P item \<and> get item k \<noteq> PNone) items)"
  by (induction items) simp_all

subsection \<open>The first loop of the analyzer\<close>

lemma et_values_of_Nil: "et_values_of [] = []"
  by (simp add: et_values_of_def)

lemma et_values_of_Cons:
  "et_values_of (p # pts) =
     (case p ''ET'' of None \<Rightarrow> et_values_of pts | Some PNone \<Rightarrow> et_values_of pts
      | Some v \<Rightarrow> v # et_values_of pts)"
  by (simp add: et_values_of_def get_def split: option.splits pyval.splits)

lemma parsed_dates_Nil: "parsed_dates [] = []"
  by (simp add: parsed_dates_def List.map_filter_simps)

lemma parsed_dates_Cons:
  "parsed_dates (p # pts) =
     (case p ''ET'' of None \<Rightarrow> parsed_dates pts | Some PNone \<Rightarrow> parsed_dates pts
      | Some v \<Rightarrow> (case date_of p of None \<Rightarrow> parsed_dates pts | Some d \<Rightarrow> d # parsed_dates pts))"
  by (simp add: parsed_dates_def get_def List.map_filter_simps split: option.splits pyval.splits)

lemma parsed_dates_step:
  "parsed_dates (p # pts) =
     (if get p ''ET'' = PNone then parsed_dates pts
      else (case date_of p of None \<Rightarrow> parsed_dates pts | Some d \<Rightarrow> d # parsed_dates pts))"
  by (simp add: parsed_dates_def List.map_filter_simps split: option.splits)

lemma et_loop_values:
  "et_loop pts ev ds lg = (lg', Inr (ev', ds')) \<Longrightarrow> ev' = ev @ et_values_of pts"
proof (induction pts arbitrary: ev ds lg)
  case Nil
  then show ?case by (simp add: et_values_of_Nil)
next
  case (Cons p pts)
  then show ?case
    by (auto simp add: et_values_of_Cons split: option.splits pyval.splits dest!: Cons.IH)
qed

lemma et_loop_dates:
  "et_loop pts ev ds lg = (lg', Inr (ev', ds')) \<Longrightarrow> ds' = ds @ parsed_dates pts"
proof (induction pts arbitrary: ev ds lg)
  case Nil
  then show ?case by (simp add: parsed_dates_Nil)
next
  case (Cons p pts)
  then show ?case
    by (auto simp add: parsed_dates_Cons date_of_def split: option.splits pyval.splits
        dest!: Cons.IH)
qed

lemma et_loop_no_values:
  "\<forall>p \<in> set pts. get p ''ET'' = PNone \<Longrightarrow> et_loop pts ev ds lg = (lg, Inr (ev, ds))"
  by (induction pts) (auto simp add: get_def split: option.splits pyval.splits)

lemma et_loop_well_dated:
  "\<forall>p \<in> set pts. get p ''ET'' \<noteq> PNone \<longrightarrow> date_of p \<noteq> None \<Longrightarrow>
     et_loop pts ev ds lg = (lg, Inr (ev @ et_values_of pts, ds @ parsed_dates pts))"
proof (induction pts arbitrary: ev ds lg)
  case Nil
  then show ?case by (simp add: parsed_dates_Nil et_values_of_Nil)
next
  case (Cons p pts)
  then show ?case
    by (auto simp add: parsed_dates_Cons et_values_of_Cons date_of_def get_def
        split: option.splits pyval.splits)
qed

lemma well_dated_lengths:
  "\<forall>p \<in> set pts. get p ''ET'' \<noteq> PNone \<longrightarrow> date_of p \<noteq> None \<Longrightarrow>
     length (parsed_dates pts) = length (et_values_of pts)"
  by (induction pts)
     (auto simp add: parsed_dates_Nil et_values_of_Nil parsed_dates_Cons et_values_of_Cons get_def
        split: option.splits pyval.splits)

lemma well_dated_dates:
  "\<forall>p \<in> set pts. get p ''ET'' \<noteq> PNone \<longrightarrow> date_of p \<noteq> None \<Longrightarrow>
     map Some (parsed_dates pts) = map date_of (filter (\<lambda>p. get p ''ET'' \<noteq> PNone) pts)"
  by (induction pts) (auto simp add: parsed_dates_Nil parsed_dates_step)

lemma analyze_report:
  assumes "snd (analyze_et_data N pts) = Inr (Fields r)"
  shows "et_statistics N (et_values_of pts) (parsed_dates pts) = Inr r \<and> et_values_of pts \<noteq> []"
proof -
  from assms have ne: "pts \<noteq> []"
    by (auto simp add: analyze_et_data_def)
  obtain lg res where l: "et_loop pts [] [] [] = (lg, res)"
    by (cases "et_loop pts [] [] []") auto
  with assms ne obtain ev ds where res: "res = Inr (ev, ds)"
    by (cases res) (auto simp add: analyze_et_data_def)
  from l res have ev: "ev = et_values_of pts"
    using et_loop_values[of pts "[]" "[]" "[]" lg ev ds] by simp
  from l res have ds: "ds = parsed_dates pts"
    using et_loop_dates[of pts "[]" "[]" "[]" lg ev ds] by simp
  from assms ne l res ev ds show ?thesis
    by (cases "et_statistics N ev ds") (auto simp add: analyze_et_data_def split: if_splits)
qed

lemma ndvi_values_none:
  "\<forall>p \<in> set pts. get p ''NDVI'' = PNone \<Longrightarrow> ndvi_values pts = []"
  by (induction pts) (simp_all add: ndvi_values_def)

text \<open>Without a value in any point both functions return the empty dictionary.\<close>

lemma no_values_empty_report:
  "analyze_et_data N [] = ([], Inr Empty) \<and>
   generate_vegetation_summary N [] = Inr Empty \<and>
   ((\<forall>p \<in> set pts. get p ''ET'' = PNone) \<longrightarrow> analyze_et_data N pts = ([], Inr Empty)) \<and>
   ((\<forall>p \<in> set qs. get p ''NDVI'' = PNone) \<longrightarrow> generate_vegetation_summary N qs = Inr Empty)"
proof -
  have a: "analyze_et_data N [] = ([], Inr Empty)"
    by (simp add: analyze_et_data_def)
  have b: "generate_vegetation_summary N [] = Inr Empty"
    by (simp add: generate_vegetation_summary_def)
  have c: "analyze_et_data N pts = ([], Inr Empty)" if "\<forall>p \<in> set pts. get p ''ET'' = PNone"
    using et_loop_no_values[OF that, of "[]" "[]" "[]"]
    by (simp add: analyze_et_data_def)
  have d: "generate_vegetation_summary N qs = Inr Empty"
    if "\<forall>p \<in> set qs. get p ''NDVI'' = PNone"
    using ndvi_values_none[OF that] by (simp add: generate_vegetation_summary_def)
  from a b c d show ?thesis by blast
qed

subsection \<open>The index of the maximum\<close>

lemma argmax_scan_correct:
  assumes "length pre = i" "bi < i" "pre ! bi = best"
    "\<forall>j<i. pre ! j \<le> best" "\<forall>j<bi. pre ! j < best"
  shows "argmax_scan ys i best bi < length (pre @ ys) \<and>
         (\<forall>j<length (pre @ ys). (pre @ ys) ! j \<le> (pre @ ys) ! argmax_scan ys i best bi) \<and>
         (\<forall>j<argmax_scan ys i best bi. (pre @ ys) ! j < (pre @ ys) ! argmax_scan ys i best bi)"
  using assms
proof (induction ys arbitrary: pre i best bi)
  case Nil
  then show ?case by simp
next
  case (Cons y ys)
  show ?case
  proof (cases "best < y")
    case True
    have "argmax_scan ys (Suc i) y i < length ((pre @ [y]) @ ys) \<and>
         (\<forall>j<length ((pre @ [y]) @ ys). ((pre @ [y]) @ ys) ! j \<le> ((pre @ [y]) @ ys) ! argmax_scan ys (Suc i) y i) \<and>
         (\<forall>j<argmax_scan ys (Suc i) y i. ((pre @ [y]) @ ys) ! j < ((pre @ [y]) @ ys) ! argmax_scan ys (Suc i) y i)"
    proof (rule Cons.IH)
      show "length (pre @ [y]) = Suc i" using Cons.prems by simp
      show "i < Suc i" by simp
      show "(pre @ [y]) ! i = y" using Cons.prems by (simp add: nth_append)
      show "\<forall>j<Suc i. (pre @ [y]) ! j \<le> y"
      proof (intro allI impI)
        fix j
        assume "j < Suc i"
        show "(pre @ [y]) ! j \<le> y"
        proof (cases "j < i")
          case True
          with Cons.prems have "pre ! j \<le> best" by simp
          with \<open>best < y\<close> have "pre ! j \<le> y" by linarith
          with True Cons.prems show ?thesis by (simp add: nth_append)
        next
          case False
          with \<open>j < Suc i\<close> Cons.prems show ?thesis by (simp add: nth_append)
        qed
      qed
      show "\<forall>j<i. (pre @ [y]) ! j < y"
        using Cons.prems True by (auto simp add: nth_append)
    qed
    with True show ?thesis by simp
  next
    case False
    have "argmax_scan ys (Suc i) best bi < length ((pre @ [y]) @ ys) \<and>
         (\<forall>j<length ((pre @ [y]) @ ys). ((pre @ [y]) @ ys) ! j \<le> ((pre @ [y]) @ ys) ! argmax_scan ys (Suc i) best bi) \<and>
         (\<forall>j<argmax_scan ys (Suc i) best bi. ((pre @ [y]) @ ys) ! j < ((pre @ [y]) @ ys) ! argmax_scan ys (Suc i) best bi)"
    proof (rule Cons.IH)
      show "length (pre @ [y]) = Suc i" using Cons.prems by simp
      show "bi < Suc i" using Cons.prems by simp
      show "(pre @ [y]) ! bi = best" using Cons.prems by (simp add: nth_append)
      show "\<forall>j<Suc i. (pre @ [y]) ! j \<le> best"
        using Cons.prems False by (auto simp add: nth_append less_Suc_eq)
      show "\<forall>j<bi. (pre @ [y]) ! j < best"
        using Cons.prems by (auto simp add: nth_append)
    qed
    with False show ?thesis by simp
  qed
qed

lemma np_argmax_first_maximum:
  assumes "xs \<noteq> []"
  shows "np_argmax xs < length xs \<and>
         (\<forall>j<length xs. xs ! j \<le> xs ! np_argmax xs) \<and>
         (\<forall>j<np_argmax xs. xs ! j < xs ! np_argmax xs)"
proof -
  from assms obtain x rest where xs: "xs = x # rest" by (cases xs) auto
  have "argmax_scan rest 1 x 0 < length ([x] @ rest) \<and>
         (\<forall>j<length ([x] @ rest). ([x] @ rest) ! j \<le> ([x] @ rest) ! argmax_scan rest 1 x 0) \<and>
         (\<forall>j<argmax_scan rest 1 x 0. ([x] @ rest) ! j < ([x] @ rest) ! argmax_scan rest 1 x 0)"
    by (rule argmax_scan_correct) simp_all
  with xs show ?thesis by (simp add: np_argmax_def)
qed

subsection \<open>The statistics\<close>

lemma np_array_total:
  "list_all is_num vs \<Longrightarrow> np_array vs = Inr (map num_of vs)"
  by (simp add: np_array_def)

lemma et_statistics_num:
  "et_statistics N ets dates = Inr r \<Longrightarrow> np_array ets = Inr (map num_of ets)"
  by (cases "list_all is_num ets") (simp_all add: et_statistics_def np_array_def)

lemma et_statistics_water:
  assumes "et_statistics N ets dates = Inr r"
  shows "water_use_classification r = fst (water_use (mean_monthly_et_mm r)) \<and>
     water_use_description r = snd (water_use (mean_monthly_et_mm r))"
  using assms et_statistics_num[OF assms]
  by (auto simp add: et_statistics_def Let_def split: sum.splits)

lemma et_statistics_trend:
  assumes "et_statistics N ets dates = Inr r"
  shows "observations r = length ets \<and>
     monthly_trend r = (if 1 < length ets
        then trend_of (np_polyfit N (arange (length ets)) (map num_of ets)) else ''stable'') \<and>
     trend_slope_mm_per_month r = (if 1 < length ets
        then np_round N (np_polyfit N (arange (length ets)) (map num_of ets)) 3 else 0)"
  using assms et_statistics_num[OF assms]
  by (auto simp add: et_statistics_def Let_def split: sum.splits)

lemma et_statistics_total:
  assumes "et_statistics N ets dates = Inr r"
  shows "total_et_mm r = py_int (np_round N (np_sum N (map num_of ets)) 0) \<and>
     total_et_inches r =
       np_round N (f_mul N (np_round N (np_sum N (map num_of ets)) 0) mm_to_inches) 2"
  using assms et_statistics_num[OF assms]
  by (auto simp add: et_statistics_def Let_def split: sum.splits)

lemma et_statistics_seasons:
  assumes "et_statistics N ets dates = Inr r"
  shows "seasonal_totals_mm r = round_seasons N (seasonal_sums N (zip dates (map num_of ets)))"
  using assms et_statistics_num[OF assms]
  by (auto simp add: et_statistics_def Let_def split: sum.splits)

lemma summary_Fields:
  assumes "generate_vegetation_summary N pts = Inr (Fields r)"
  shows "vigor_classification r = vigor_of (mean_ndvi r) \<and>
         mean_ndvi r = np_round N (np_mean N (map num_of (ndvi_values pts))) 3"
proof -
  from assms have "np_array (ndvi_values pts) = Inr (map num_of (ndvi_values pts))"
    by (cases "list_all is_num (ndvi_values pts)")
       (auto simp add: generate_vegetation_summary_def np_array_def split: if_splits)
  with assms show ?thesis
    by (auto simp add: generate_vegetation_summary_def split: if_splits)
qed

lemma index_in_range:
  "k < length xs \<Longrightarrow> index xs (int k) = Inr (xs ! k)"
  by (simp add: index_def)

lemma index_first:
  "xs \<noteq> [] \<Longrightarrow> index xs 0 = Inr (hd xs)"
  by (cases xs) (simp_all add: index_def)

lemma index_last:
  "xs \<noteq> [] \<Longrightarrow> index xs (- 1) = Inr (last xs)"
  by (cases xs rule: rev_cases) (simp_all add: index_def)

lemma et_statistics_aligned:
  assumes num: "list_all is_num ets" and ne: "ets \<noteq> []" and len: "length dates = length ets"
  shows "\<exists>r. et_statistics N ets dates = Inr r \<and>
             peak_et_month r = strftime (dates ! np_argmax (map num_of ets))"
proof -
  from ne have "map num_of ets \<noteq> []" by simp
  from np_argmax_first_maximum[OF this] len
  have k: "np_argmax (map num_of ets) < length dates" by simp
  from ne len have d: "dates \<noteq> []" by auto
  show ?thesis
    using num
    by (simp add: et_statistics_def np_array_total index_in_range[OF k] index_first[OF d]
        index_last[OF d] Let_def)
qed

text \<open>The buckets of the seasons: each adds, from the left, the values of the pairs
  of its months; the last one takes the pairs of no other bucket.\<close>

lemma seasonal_fold:
  "foldl (seasonal_step N) t pairs =
     \<lparr>winter = foldl (f_add N) (winter t)
                (map snd (filter (\<lambda>p. month (fst p) \<in> {12, 1, 2}) pairs)),
      spring = foldl (f_add N) (spring t)
                (map snd (filter (\<lambda>p. month (fst p) \<in> {3, 4, 5}) pairs)),
      summer = foldl (f_add N) (summer t)
                (map snd (filter (\<lambda>p. month (fst p) \<in> {6, 7, 8}) pairs)),
      fall = foldl (f_add N) (fall t)
                (map snd (filter (\<lambda>p. month (fst p) \<notin> {12, 1, 2, 3, 4, 5, 6, 7, 8}) pairs))\<rparr>"
  by (induction pairs arbitrary: t) (auto simp add: seasonal_step_def Let_def)

subsection \<open>The least-squares line\<close>

lemma residual_expand:
  "sum_list (map (\<lambda>p. (snd p - (a * fst p + b))\<^sup>2) ps) =
     sum_list (map (\<lambda>p. snd p * snd p) ps)
     - 2 * a * sum_list (map (\<lambda>p. fst p * snd p) ps)
     - 2 * b * sum_list (map snd ps)
     + a * a * sum_list (map (\<lambda>p. fst p * fst p) ps)
     + 2 * a * b * sum_list (map fst ps)
     + real (length ps) * (b * b)"
  by (induction ps) (simp_all add: algebra_simps power2_eq_square)

lemma square_sum_expand:
  "sum_list (map (\<lambda>p. (c * fst p + d)\<^sup>2) ps) =
     c * c * sum_list (map (\<lambda>p. fst p * fst p) ps)
     + 2 * c * d * sum_list (map fst ps)
     + real (length ps) * (d * d)"
  by (induction ps) (simp_all add: algebra_simps power2_eq_square)

lemma square_sum_nonneg:
  "0 \<le> sum_list (map (\<lambda>p. (c * fst p + d)\<^sup>2) (ps :: (real \<times> real) list))"
  by (rule sum_list_nonneg) auto

lemma sum_arange: "2 * sum_list (arange n) = real n * (real n - 1)"
  by (induction n) (simp_all add: arange_def algebra_simps)

lemma sum_sq_arange:
  "6 * sum_list (map (\<lambda>x. x * x) (arange n)) = (real n - 1) * real n * (2 * real n - 1)"
  by (induction n) (simp_all add: arange_def algebra_simps)

lemma arange_determinant:
  assumes "2 \<le> n"
  shows "0 < real n * sum_list (map (\<lambda>x. x * x) (arange n))
             - sum_list (arange n) * sum_list (arange n)"
proof -
  let ?s = "sum_list (arange n)" and ?q = "sum_list (map (\<lambda>x. x * x) (arange n))"
  have "12 * (real n * ?q - ?s * ?s) = 2 * real n * (6 * ?q) - 3 * ((2 * ?s) * (2 * ?s))"
    by (simp add: algebra_simps)
  also have "\<dots> = 2 * real n * ((real n - 1) * real n * (2 * real n - 1))
      - 3 * ((real n * (real n - 1)) * (real n * (real n - 1)))"
    by (simp only: sum_arange sum_sq_arange)
  also have "\<dots> = real n * real n * (real n - 1) * (real n + 1)"
    by (simp add: algebra_simps)
  finally have e: "12 * (real n * ?q - ?s * ?s) = real n * real n * (real n - 1) * (real n + 1)" .
  from assms have "0 < real n * real n * (real n - 1) * (real n + 1)"
    by simp
  then have "0 < 12 * (real n * ?q - ?s * ?s)"
    by (simp only: e)
  then show ?thesis by simp
qed

lemma residual_difference:
  assumes len: "length xs = length ys"
    and det: "real (length xs) * sum_list (map (\<lambda>x. x * x) xs) - sum_list xs * sum_list xs \<noteq> 0"
    and ne: "xs \<noteq> []"
  shows "residual_sum xs ys a b - residual_sum xs ys (normal_slope xs ys) (normal_intercept xs ys)
     = (a - normal_slope xs ys) * (a - normal_slope xs ys) * sum_list (map (\<lambda>x. x * x) xs)
       + 2 * (a - normal_slope xs ys) * (b - normal_intercept xs ys) * sum_list xs
       + real (length xs) * ((b - normal_intercept xs ys) * (b - normal_intercept xs ys))"
proof -
  let ?ps = "zip xs ys"
  let ?n = "real (length xs)"
  let ?sx = "sum_list xs" and ?sy = "sum_list ys"
  let ?sxx = "sum_list (map (\<lambda>x. x * x) xs)"
  let ?sxy = "sum_list (map (\<lambda>p. fst p * snd p) ?ps)"
  let ?syy = "sum_list (map (\<lambda>p. snd p * snd p) ?ps)"
  let ?a = "normal_slope xs ys" and ?b = "normal_intercept xs ys"
  let ?d = "?n * ?sxx - ?sx * ?sx"
  from len have fst_ps: "map fst ?ps = xs" and snd_ps: "map snd ?ps = ys"
    by simp_all
  have sxx_ps: "sum_list (map (\<lambda>p. fst p * fst p) ?ps) = ?sxx"
  proof -
    have "map (\<lambda>p. fst p * fst p) ?ps = map (\<lambda>x. x * x) (map fst ?ps)"
      by (simp add: comp_def)
    then show ?thesis by (simp only: fst_ps)
  qed
  from len have n_ps: "real (length ?ps) = ?n" by simp
  from ne have n0: "?n \<noteq> 0" by simp
  have slope: "?a * ?d = ?n * ?sxy - ?sx * ?sy"
    using det by (simp add: normal_slope_def Let_def)
  have ne1: "?n * ?b + ?sx * ?a = ?sy"
    using n0 by (simp add: normal_intercept_def field_simps)
  have "?n * (?sx * ?b + ?sxx * ?a) = ?sx * (?n * ?b + ?sx * ?a) + ?a * ?d"
    by (simp add: algebra_simps)
  also have "\<dots> = ?sx * ?sy + (?n * ?sxy - ?sx * ?sy)"
    by (simp only: ne1 slope)
  also have "\<dots> = ?n * ?sxy" by simp
  finally have "?n * (?sx * ?b + ?sxx * ?a) = ?n * ?sxy" .
  with n0 have ne2: "?sx * ?b + ?sxx * ?a = ?sxy" by simp
  have expand: "residual_sum xs ys c d =
      ?syy - 2 * c * ?sxy - 2 * d * ?sy + c * c * ?sxx + 2 * c * d * ?sx + ?n * (d * d)" for c d
    unfolding residual_sum_def residual_expand
    by (simp only: fst_ps snd_ps sxx_ps n_ps)
  show ?thesis
    unfolding expand
    unfolding ne1[symmetric] ne2[symmetric]
    by (simp add: algebra_simps)
qed

lemma least_squares_minimum:
  assumes len: "length xs = length ys"
    and det: "0 < real (length xs) * sum_list (map (\<lambda>x. x * x) xs) - sum_list xs * sum_list xs"
    and ne: "xs \<noteq> []"
  shows "residual_sum xs ys (normal_slope xs ys) (normal_intercept xs ys)
           \<le> residual_sum xs ys a b"
proof -
  let ?a = "normal_slope xs ys" and ?b = "normal_intercept xs ys"
  from det have det': "real (length xs) * sum_list (map (\<lambda>x. x * x) xs)
      - sum_list xs * sum_list xs \<noteq> 0" by simp
  from len have fst_ps: "map fst (zip xs ys) = xs" by simp
  have sxx_ps: "sum_list (map (\<lambda>p. fst p * fst p) (zip xs ys)) = sum_list (map (\<lambda>x. x * x) xs)"
  proof -
    have "map (\<lambda>p. fst p * fst p) (zip xs ys) = map (\<lambda>x. x * x) (map fst (zip xs ys))"
      by (simp add: comp_def)
    then show ?thesis by (simp only: fst_ps)
  qed
  from len have n_ps: "real (length (zip xs ys)) = real (length xs)" by simp
  have "residual_sum xs ys a b - residual_sum xs ys ?a ?b
      = sum_list (map (\<lambda>p. ((a - ?a) * fst p + (b - ?b))\<^sup>2) (zip xs ys))"
    unfolding residual_difference[OF len det' ne] square_sum_expand
    by (simp only: fst_ps sxx_ps n_ps)
  also have "0 \<le> \<dots>" by (rule square_sum_nonneg)
  finally show ?thesis by simp
qed

lemma least_squares_unique:
  assumes len: "length xs = length ys"
    and det: "0 < real (length xs) * sum_list (map (\<lambda>x. x * x) xs) - sum_list xs * sum_list xs"
    and ne: "xs \<noteq> []"
    and le: "residual_sum xs ys a b
               \<le> residual_sum xs ys (normal_slope xs ys) (normal_intercept xs ys)"
  shows "a = normal_slope xs ys \<and> b = normal_intercept xs ys"
proof -
  let ?n = "real (length xs)"
  let ?sx = "sum_list xs"
  let ?sxx = "sum_list (map (\<lambda>x. x * x) xs)"
  let ?al = "a - normal_slope xs ys" and ?be = "b - normal_intercept xs ys"
  let ?q = "?al * ?al * ?sxx + 2 * ?al * ?be * ?sx + ?n * (?be * ?be)"
  from det have det': "?n * ?sxx - ?sx * ?sx \<noteq> 0" by simp
  from ne have n: "0 < ?n" by simp
  from le residual_difference[OF len det' ne, of a b] have q: "?q \<le> 0" by simp
  have "?n * ?q = (?n * ?be + ?sx * ?al)\<^sup>2 + ?al\<^sup>2 * (?n * ?sxx - ?sx * ?sx)"
    by (simp add: algebra_simps power2_eq_square)
  moreover from n q have "?n * ?q \<le> 0"
    by (simp add: mult_le_0_iff)
  ultimately have s: "(?n * ?be + ?sx * ?al)\<^sup>2 + ?al\<^sup>2 * (?n * ?sxx - ?sx * ?sx) \<le> 0"
    by simp
  have p1: "0 \<le> (?n * ?be + ?sx * ?al)\<^sup>2" by simp
  have p2: "0 \<le> ?al\<^sup>2 * (?n * ?sxx - ?sx * ?sx)"
    using det by simp
  from s p1 p2 have z2: "?al\<^sup>2 * (?n * ?sxx - ?sx * ?sx) = 0"
    and z1: "(?n * ?be + ?sx * ?al)\<^sup>2 = 0"
    by linarith+
  from z2 det have al: "?al = 0" by simp
  with z1 n have "?be = 0" by simp
  with al show ?thesis by simp
qed

subsection \<open>Well dated points\<close>

text \<open>When every point that has an ET value has a date that parses and the values
  are numbers, the analyzer returns a report, and its peak is the date of the first
  point, in the order of the input, whose value is the maximum.\<close>

lemma peak_is_first_maximum:
  assumes wd: "\<forall>p \<in> set pts. get p ''ET'' \<noteq> PNone \<longrightarrow> date_of p \<noteq> None"
    and num: "list_all is_num (et_values_of pts)"
    and ne: "et_values_of pts \<noteq> []"
  shows "\<exists>r k. analyze_et_data N pts = ([], Inr (Fields r)) \<and>
           k < length (filter (\<lambda>p. get p ''ET'' \<noteq> PNone) pts) \<and>
           date_of (filter (\<lambda>p. get p ''ET'' \<noteq> PNone) pts ! k) = Some (parsed_dates pts ! k) \<and>
           peak_et_month r = strftime (parsed_dates pts ! k) \<and>
           (\<forall>j<length (et_values_of pts).
              num_of (et_values_of pts ! j) \<le> num_of (et_values_of pts ! k)) \<and>
           (\<forall>j<k. num_of (et_values_of pts ! j) < num_of (et_values_of pts ! k))"
proof -
  let ?obs = "filter (\<lambda>p. get p ''ET'' \<noteq> PNone) pts"
  let ?ys = "map num_of (et_values_of pts)"
  let ?k = "np_argmax ?ys"
  from ne have pts: "pts \<noteq> []" by (auto simp add: et_values_of_Nil)
  have len: "length (parsed_dates pts) = length (et_values_of pts)"
    by (rule well_dated_lengths[OF wd])
  from et_statistics_aligned[OF num ne len, of N] obtain r
    where r: "et_statistics N (et_values_of pts) (parsed_dates pts) = Inr r"
      and peak: "peak_et_month r = strftime (parsed_dates pts ! ?k)"
    by blast
  from et_loop_well_dated[OF wd, of "[]" "[]" "[]"] r ne pts
  have a: "analyze_et_data N pts = ([], Inr (Fields r))"
    by (simp add: analyze_et_data_def)
  from ne have "?ys \<noteq> []" by simp
  note am = np_argmax_first_maximum[OF this]
  from am have k: "?k < length (et_values_of pts)"
    by simp
  from am k have mx': "\<forall>j<length (et_values_of pts).
      num_of (et_values_of pts ! j) \<le> num_of (et_values_of pts ! ?k)"
    by simp
  from am k have first': "\<forall>j<?k. num_of (et_values_of pts ! j) < num_of (et_values_of pts ! ?k)"
    by simp
  have lobs: "length ?obs = length (et_values_of pts)"
    by (simp add: et_values_of_def)
  from k lobs have kobs: "?k < length ?obs" by simp
  have "map Some (parsed_dates pts) ! ?k = map date_of ?obs ! ?k"
    by (simp only: well_dated_dates[OF wd])
  with k kobs len have dk: "date_of (?obs ! ?k) = Some (parsed_dates pts ! ?k)"
    by simp
  from a kobs dk peak mx' first' show ?thesis by blast
qed

section \<open>Records whose date does not parse\<close>

text \<open>
  C1. A record whose date string does not parse as \<^verbatim>\<open>YYYY-MM-DD\<close> should be skipped
  with a warning, its ET value left out of every statistic, the analysis going on
  without an exception and \<^verbatim>\<open>observations\<close> counting the values that remain.
  The loop appends the value before it parses the date, so the value stays:
  a single record dated \<^verbatim>\<open>2021-13-01\<close> makes the analysis end in \<^verbatim>\<open>IndexError\<close>
  (on \<^verbatim>\<open>dates[max_idx]\<close>, the list of dates being empty), and with a second, well
  dated record the report counts both values: \<^verbatim>\<open>observations\<close> is 2 and the total is the
  rounded sum of 5 and 3, whatever the library computes for it, and 8 in exact
  arithmetic.
\<close>

theorem bad_date_value_not_skipped:
  "analyze_et_data N [map_of [(''date'', PStr ''2021-13-01''), (''ET'', PNum 10)]]
     = ([(WARNING, ''Invalid date format: 2021-13-01'')], Inl IndexError) \<and>
   (case snd (analyze_et_data N
        [map_of [(''date'', PStr ''2021-13-01''), (''ET'', PNum 5)],
         map_of [(''date'', PStr ''2021-01-01''), (''ET'', PNum 3)]]) of
      Inr (Fields r) \<Rightarrow>
        observations r = 2 \<and> total_et_mm r = py_int (np_round N (np_sum N [5, 3]) 0)
    | _ \<Rightarrow> False) \<and>
   (case snd (analyze_et_data exact
        [map_of [(''date'', PStr ''2021-13-01''), (''ET'', PNum 5)],
         map_of [(''date'', PStr ''2021-01-01''), (''ET'', PNum 3)]]) of
      Inr (Fields r) \<Rightarrow> observations r = 2 \<and> total_et_mm r = 8
    | _ \<Rightarrow> False)"
  by (simp add: analyze_et_data_def date_defs stat_defs exact_defs Let_def)

text \<open>
  C3. The peak should be the date of the first maximum of the ET values, in the order
  of the input. The same loop leaves the list of dates shorter than the list of
  values when a date does not parse, and \<^verbatim>\<open>dates[max_idx]\<close> then reads the date of another
  record. For the records (2021-13-01, 5), (2021-01-01, 10), (2021-02-01, 3) the maximum
  10 belongs to 2021-01-01 and the report names 2021-02-01; for (2021-01-01, 3),
  (2021-13-01, 10) the index is out of range and the analysis ends in \<^verbatim>\<open>IndexError\<close>.
  (On well dated points the peak is the date of the first maximum:
  lemma \<open>peak_is_first_maximum\<close>.)
\<close>

theorem peak_misaligned_by_bad_date:
  "(case snd (analyze_et_data N
        [map_of [(''date'', PStr ''2021-13-01''), (''ET'', PNum 5)],
         map_of [(''date'', PStr ''2021-01-01''), (''ET'', PNum 10)],
         map_of [(''date'', PStr ''2021-02-01''), (''ET'', PNum 3)]]) of
      Inr (Fields r) \<Rightarrow> peak_et_month r = ''2021-02-01''
    | _ \<Rightarrow> False) \<and>
   snd (analyze_et_data N
        [map_of [(''date'', PStr ''2021-01-01''), (''ET'', PNum 3)],
         map_of [(''date'', PStr ''2021-13-01''), (''ET'', PNum 10)]]) = Inl IndexError"
  by (simp add: analyze_et_data_def date_defs stat_defs Let_def)

section \<open>Empty input\<close>

text \<open>
  C2. On the empty sequence both functions return the empty dictionary, and so they do
  when no point carries a value (lemma \<open>no_values_empty_report\<close>). When the values of
  the ET analyzer are all filtered out by their dates, the analyzer should return the
  empty dictionary as well and raise nothing. It keeps the values (the loop appends
  them before it parses the dates), finds no date and ends in \<^verbatim>\<open>IndexError\<close>:
  so it does on the two records dated \<^verbatim>\<open>2021-13-01\<close> and \<^verbatim>\<open>01/02/2021\<close>.
\<close>

theorem all_dates_bad_not_empty:
  "analyze_et_data N
     [map_of [(''date'', PStr ''2021-13-01''), (''ET'', PNum 5)],
      map_of [(''date'', PStr ''01/02/2021''), (''ET'', PNum 7)]]
     = ([(WARNING, ''Invalid date format: 2021-13-01''),
         (WARNING, ''Invalid date format: 01/02/2021'')], Inl IndexError) \<and>
   analyze_et_data N [] = ([], Inr Empty) \<and>
   generate_vegetation_summary N [] = Inr Empty"
  by (simp add: analyze_et_data_def generate_vegetation_summary_def date_defs stat_defs Let_def)

section \<open>Totals and seasons\<close>

text \<open>The growing season takes the pairs of the months April to October, both
  included.\<close>

lemma growing_season_months:
  "growing_season pairs =
     map snd (filter (\<lambda>p. month (fst p) \<in> {4, 5, 6, 7, 8, 9, 10}) pairs)"
proof -
  have "(4 \<le> m \<and> m \<le> 10) = (m \<in> {4, 5, 6, 7, 8, 9, 10})" for m :: nat
    by auto
  then show ?thesis by (simp add: growing_season_def)
qed

text \<open>The scenario in exact arithmetic: four points with the ET values 20, 40, 80 and
  40, dated in January, April, July and October (any day that parses), give the total
  180, the growing season total 160 and the seasonal totals 20, 40, 80 and 40.\<close>

lemma seasonal_scenario:
  assumes "p1 ''ET'' = Some (PNum 20)" "p1 ''date'' = Some (PStr s1)"
      "strptime s1 = Some d1" "month d1 = 1"
    and "p2 ''ET'' = Some (PNum 40)" "p2 ''date'' = Some (PStr s2)"
      "strptime s2 = Some d2" "month d2 = 4"
    and "p3 ''ET'' = Some (PNum 80)" "p3 ''date'' = Some (PStr s3)"
      "strptime s3 = Some d3" "month d3 = 7"
    and "p4 ''ET'' = Some (PNum 40)" "p4 ''date'' = Some (PStr s4)"
      "strptime s4 = Some d4" "month d4 = 10"
  shows "\<exists>r. analyze_et_data exact [p1, p2, p3, p4] = ([], Inr (Fields r)) \<and>
            total_et_mm r = 180 \<and> growing_season_et_mm r = 160 \<and>
            seasonal_totals_mm r = \<lparr>winter = 20, spring = 40, summer = 80, fall = 40\<rparr>"
proof -
  have loop: "et_loop [p1, p2, p3, p4] [] [] []
      = ([], Inr ([PNum 20, PNum 40, PNum 80, PNum 40], [d1, d2, d3, d4]))"
    using assms by simp
  have stats: "\<exists>r. et_statistics exact [PNum 20, PNum 40, PNum 80, PNum 40] [d1, d2, d3, d4]
        = Inr r \<and>
      total_et_mm r = 180 \<and> growing_season_et_mm r = 160 \<and>
      seasonal_totals_mm r = \<lparr>winter = 20, spring = 40, summer = 80, fall = 40\<rparr>"
    using assms
    by (simp add: stat_defs exact_defs Let_def growing_season_def seasonal_sums_def
        seasonal_step_def round_seasons_def)
  from loop stats show ?thesis
    by (auto simp add: analyze_et_data_def)
qed

text \<open>
  C4. The scenario holds (lemma \<open>seasonal_scenario\<close>). In general a December
  observation should add its value to the winter total and never to the fall total.
  The totals are summed over \<^verbatim>\<open>zip(dates, et_values)\<close>, and after a date that did not
  parse each date is paired with the value of the record before it: for the records
  (2021-13-01, 5), (2020-12-01, 7), (2021-09-01, 3) the winter total is the rounded sum
  of the value 5 and the fall total is the rounded sum of the December value 7,
  whatever the library computes for them; in exact arithmetic, winter 5 and fall 7.
\<close>

theorem december_value_counted_in_fall:
  "(case snd (analyze_et_data N
        [map_of [(''date'', PStr ''2021-13-01''), (''ET'', PNum 5)],
         map_of [(''date'', PStr ''2020-12-01''), (''ET'', PNum 7)],
         map_of [(''date'', PStr ''2021-09-01''), (''ET'', PNum 3)]]) of
      Inr (Fields r) \<Rightarrow>
        seasonal_totals_mm r =
          \<lparr>winter = py_round N (f_add N 0 5) 0, spring = py_round N 0 0,
           summer = py_round N 0 0, fall = py_round N (f_add N 0 7) 0\<rparr>
    | _ \<Rightarrow> False) \<and>
   (case snd (analyze_et_data exact
        [map_of [(''date'', PStr ''2021-13-01''), (''ET'', PNum 5)],
         map_of [(''date'', PStr ''2020-12-01''), (''ET'', PNum 7)],
         map_of [(''date'', PStr ''2021-09-01''), (''ET'', PNum 3)]]) of
      Inr (Fields r) \<Rightarrow>
        seasonal_totals_mm r = \<lparr>winter = 5, spring = 0, summer = 0, fall = 7\<rparr>
    | _ \<Rightarrow> False)"
  by (simp add: analyze_et_data_def date_defs stat_defs exact_defs Let_def seasonal_sums_def
      seasonal_step_def round_seasons_def)

section \<open>The trend\<close>

text \<open>
  C6. Whenever the ET analyzer returns a report, over the ET values \<open>ys\<close> it collected
  and their indices \<open>xs = 0, 1, 2, ...\<close> (the dates play no part): with at least two
  values the slope is the one the library fits to \<open>ys\<close> against \<open>xs\<close> at degree one, the
  reported slope is it rounded to three decimals, and the trend is stable when the
  absolute value of the slope is below 0.1, increasing from 0.1 on, decreasing down from
  -0.1; with fewer than two values the trend is stable and the slope 0. In exact
  arithmetic the fit is the least-squares line: it has the least sum of squared
  residuals, and every line that does as well has the same slope.
  The slopes -5, -0.05, 0, 0.05 and 5 classify as decreasing, stable, stable, stable
  and increasing.
\<close>

theorem trend_is_least_squares_slope:
  assumes ret: "snd (analyze_et_data N pts) = Inr (Fields r)"
    and ys: "ys = map num_of (et_values_of pts)"
    and xs: "xs = arange (length ys)"
  shows "observations r = length ys \<and>
     (2 \<le> length ys \<longrightarrow>
        monthly_trend r = trend_of (np_polyfit N xs ys) \<and>
        trend_slope_mm_per_month r = np_round N (np_polyfit N xs ys) 3 \<and>
        (\<forall>a b. residual_sum xs ys (np_polyfit exact xs ys) (normal_intercept xs ys)
                 \<le> residual_sum xs ys a b) \<and>
        (\<forall>a b. residual_sum xs ys a b
                 \<le> residual_sum xs ys (np_polyfit exact xs ys) (normal_intercept xs ys)
               \<longrightarrow> a = np_polyfit exact xs ys)) \<and>
     (length ys < 2 \<longrightarrow> monthly_trend r = ''stable'' \<and> trend_slope_mm_per_month r = 0) \<and>
     (\<bar>s\<bar> < 0.1 \<longrightarrow> trend_of s = ''stable'') \<and>
     (0.1 \<le> s \<longrightarrow> trend_of s = ''increasing'') \<and>
     (s \<le> - 0.1 \<longrightarrow> trend_of s = ''decreasing'') \<and>
     map trend_of [- 5, - 0.05, 0, 0.05, 5] =
       [''decreasing'', ''stable'', ''stable'', ''stable'', ''increasing'']"
proof -
  from analyze_report[OF ret]
  have st: "et_statistics N (et_values_of pts) (parsed_dates pts) = Inr r" by simp
  note tr = et_statistics_trend[OF st]
  from tr ys have obs: "observations r = length ys" by simp
  have ex: "np_polyfit exact xs ys = normal_slope xs ys"
    by (simp add: exact_def)
  have two: "monthly_trend r = trend_of (np_polyfit N xs ys) \<and>
        trend_slope_mm_per_month r = np_round N (np_polyfit N xs ys) 3 \<and>
        (\<forall>a b. residual_sum xs ys (np_polyfit exact xs ys) (normal_intercept xs ys)
                 \<le> residual_sum xs ys a b) \<and>
        (\<forall>a b. residual_sum xs ys a b
                 \<le> residual_sum xs ys (np_polyfit exact xs ys) (normal_intercept xs ys)
               \<longrightarrow> a = np_polyfit exact xs ys)"
    if n: "2 \<le> length ys"
  proof -
    from xs have len: "length xs = length ys" by (simp add: arange_def)
    from n len have ne: "xs \<noteq> []" by auto
    from arange_determinant[OF n] xs len
    have det: "0 < real (length xs) * sum_list (map (\<lambda>x. x * x) xs) - sum_list xs * sum_list xs"
      by simp
    from tr ys xs n have t: "monthly_trend r = trend_of (np_polyfit N xs ys) \<and>
        trend_slope_mm_per_month r = np_round N (np_polyfit N xs ys) 3"
      by simp
    from least_squares_minimum[OF len det ne] least_squares_unique[OF len det ne] t
    show ?thesis unfolding ex by blast
  qed
  from tr ys have one: "monthly_trend r = ''stable'' \<and> trend_slope_mm_per_month r = 0"
    if "length ys < 2"
    using that by simp
  have lad: "(\<bar>s\<bar> < 0.1 \<longrightarrow> trend_of s = ''stable'') \<and>
     (0.1 \<le> s \<longrightarrow> trend_of s = ''increasing'') \<and>
     (s \<le> - 0.1 \<longrightarrow> trend_of s = ''decreasing'')"
    by (auto simp add: trend_of_def)
  have vals: "map trend_of [- 5, - 0.05, 0, 0.05, 5] =
       [''decreasing'', ''stable'', ''stable'', ''stable'', ''increasing'']"
    by (simp add: trend_of_def)
  from obs two one lad vals show ?thesis by blast
qed

theorem trend_is_least_squares_slope_witness:
  "\<exists>r. snd (analyze_et_data exact
          [map_of [(''date'', PStr ''2021-01-01''), (''ET'', PNum 10)],
           map_of [(''date'', PStr ''2021-02-01''), (''ET'', PNum 20)],
           map_of [(''date'', PStr ''2021-12-01''), (''ET'', PNum 30)]]) = Inr (Fields r) \<and>
       observations r = 3 \<and> monthly_trend r = ''increasing'' \<and>
       trend_slope_mm_per_month r = 10"
proof -
  let ?pts = "[map_of [(''date'', PStr ''2021-01-01''), (''ET'', PNum 10)],
           map_of [(''date'', PStr ''2021-02-01''), (''ET'', PNum 20)],
           map_of [(''date'', PStr ''2021-12-01''), (''ET'', PNum 30)]]"
  have "\<exists>r. snd (analyze_et_data exact ?pts) = Inr (Fields r)"
    by (simp add: analyze_et_data_def date_defs stat_defs Let_def)
  then obtain r where r: "snd (analyze_et_data exact ?pts) = Inr (Fields r)"
    by blast
  have ys: "[10, 20, 30] = map num_of (et_values_of ?pts)"
    by (simp add: et_values_of_def get_def)
  have xs: "[0, 1, 2] = arange (length [10, 20, 30 :: real])"
    by (simp add: arange_def upt_rec)
  have sl: "np_polyfit exact [0, 1, 2] [10, 20, 30] = 10"
    by (simp add: exact_def normal_slope_def Let_def)
  from trend_is_least_squares_slope[OF r ys xs, of 10]
  have "observations r = 3 \<and> monthly_trend r = trend_of 10 \<and>
      trend_slope_mm_per_month r = np_round exact 10 3"
    by (simp add: sl)
  then have "observations r = 3 \<and> monthly_trend r = ''increasing'' \<and>
       trend_slope_mm_per_month r = 10"
    by (simp add: trend_of_def exact_defs)
  with r show ?thesis by blast
qed

section \<open>The classifications\<close>

text \<open>
  C5. Whenever the ET analyzer returns a report, its \<^verbatim>\<open>water_use_classification\<close> and
  description are those of the ladder on the reported \<^verbatim>\<open>mean_monthly_et_mm\<close>: below 30
  low, from 30 and below 50 moderate, from 50 and below 70 high, from 70 on very high,
  each with its fixed description. The means 29.9, 30, 49.9, 50, 69.9 and 70 classify
  as low, moderate, moderate, high, high and very high.
\<close>

theorem water_use_thresholds:
  "(snd (analyze_et_data N pts) = Inr (Fields r) \<longrightarrow>
      water_use_classification r = fst (water_use (mean_monthly_et_mm r)) \<and>
      water_use_description r = snd (water_use (mean_monthly_et_mm r))) \<and>
   (m < 30 \<longrightarrow> water_use m = (''low_water_use'', ''Low water consumption'')) \<and>
   (30 \<le> m \<and> m < 50 \<longrightarrow>
      water_use m = (''moderate_water_use'', ''Moderate water consumption'')) \<and>
   (50 \<le> m \<and> m < 70 \<longrightarrow> water_use m = (''high_water_use'', ''High water consumption'')) \<and>
   (70 \<le> m \<longrightarrow>
      water_use m = (''very_high_water_use'', ''Significantly high water consumption'')) \<and>
   map (\<lambda>x. fst (water_use x)) [29.9, 30, 49.9, 50, 69.9, 70] =
     [''low_water_use'', ''moderate_water_use'', ''moderate_water_use'',
      ''high_water_use'', ''high_water_use'', ''very_high_water_use'']"
proof -
  have a: "water_use_classification r = fst (water_use (mean_monthly_et_mm r)) \<and>
      water_use_description r = snd (water_use (mean_monthly_et_mm r))"
    if "snd (analyze_et_data N pts) = Inr (Fields r)"
    using analyze_report[OF that] et_statistics_water by blast
  have b: "(m < 30 \<longrightarrow> water_use m = (''low_water_use'', ''Low water consumption'')) \<and>
   (30 \<le> m \<and> m < 50 \<longrightarrow>
      water_use m = (''moderate_water_use'', ''Moderate water consumption'')) \<and>
   (50 \<le> m \<and> m < 70 \<longrightarrow> water_use m = (''high_water_use'', ''High water consumption'')) \<and>
   (70 \<le> m \<longrightarrow>
      water_use m = (''very_high_water_use'', ''Significantly high water consumption''))"
    by (simp add: water_use_def)
  have c: "map (\<lambda>x. fst (water_use x)) [29.9, 30, 49.9, 50, 69.9, 70] =
     [''low_water_use'', ''moderate_water_use'', ''moderate_water_use'',
      ''high_water_use'', ''high_water_use'', ''very_high_water_use'']"
    by (simp add: water_use_def)
  from a b c show ?thesis by blast
qed

theorem water_use_thresholds_witness:
  "\<exists>r. snd (analyze_et_data exact [map_of [(''date'', PStr ''2021-06-01''), (''ET'', PNum 30)]])
          = Inr (Fields r) \<and>
       mean_monthly_et_mm r = 30 \<and>
       water_use_classification r = ''moderate_water_use'' \<and>
       water_use_description r = ''Moderate water consumption''"
proof -
  let ?pts = "[map_of [(''date'', PStr ''2021-06-01''), (''ET'', PNum 30)]]"
  have "\<exists>r. snd (analyze_et_data exact ?pts) = Inr (Fields r) \<and> mean_monthly_et_mm r = 30"
    by (simp add: analyze_et_data_def date_defs stat_defs exact_defs Let_def)
  then obtain r where r: "snd (analyze_et_data exact ?pts) = Inr (Fields r)"
    and m: "mean_monthly_et_mm r = 30"
    by blast
  from water_use_thresholds[of exact ?pts r 30] r m
  have "water_use_classification r = ''moderate_water_use'' \<and>
        water_use_description r = ''Moderate water consumption''"
    by simp
  with r m show ?thesis by blast
qed

text \<open>
  C7. Whenever the vegetation summarizer returns a summary, its
  \<^verbatim>\<open>vigor_classification\<close> is that of the ladder on the reported \<^verbatim>\<open>mean_ndvi\<close>, which is
  the mean of the values rounded to three decimals by the library: below 0.2 sparse,
  below 0.4 low, below 0.6 moderate, below 0.8 healthy, from 0.8 on very healthy.
  The class is that of the rounded mean, not of the mean: in exact arithmetic the values
  0.1996 and 0.2 have the mean 0.1998, which alone would be sparse, and the summary
  reports 0.2 and low. The means 0.19, 0.2, 0.39, 0.4, 0.59, 0.6, 0.79 and 0.8 classify
  as sparse, low, low, moderate, moderate, healthy, healthy and very healthy.
\<close>

theorem vigor_thresholds:
  "(generate_vegetation_summary N pts = Inr (Fields r) \<longrightarrow>
      vigor_classification r = vigor_of (mean_ndvi r) \<and>
      mean_ndvi r = np_round N (np_mean N (map num_of (ndvi_values pts))) 3) \<and>
   (case generate_vegetation_summary exact
           [map_of [(''date'', PStr ''2021-06-01''), (''NDVI'', PNum 0.1996)],
            map_of [(''date'', PStr ''2021-07-01''), (''NDVI'', PNum 0.2)]] of
      Inr (Fields r) \<Rightarrow>
        mean_ndvi r = 0.2 \<and> vigor_classification r = ''Low vegetation'' \<and>
        np_mean exact [0.1996, 0.2] = 0.1998 \<and>
        vigor_of 0.1998 = ''Sparse or no vegetation''
    | _ \<Rightarrow> False) \<and>
   (m < 0.2 \<longrightarrow> vigor_of m = ''Sparse or no vegetation'') \<and>
   (0.2 \<le> m \<and> m < 0.4 \<longrightarrow> vigor_of m = ''Low vegetation'') \<and>
   (0.4 \<le> m \<and> m < 0.6 \<longrightarrow> vigor_of m = ''Moderate vegetation'') \<and>
   (0.6 \<le> m \<and> m < 0.8 \<longrightarrow> vigor_of m = ''Healthy vegetation'') \<and>
   (0.8 \<le> m \<longrightarrow> vigor_of m = ''Very healthy/dense vegetation'') \<and>
   map vigor_of [0.19, 0.2, 0.39, 0.4, 0.59, 0.6, 0.79, 0.8] =
     [''Sparse or no vegetation'', ''Low vegetation'', ''Low vegetation'',
      ''Moderate vegetation'', ''Moderate vegetation'', ''Healthy vegetation'',
      ''Healthy vegetation'', ''Very healthy/dense vegetation'']"
proof -
  have a: "vigor_classification r = vigor_of (mean_ndvi r) \<and>
      mean_ndvi r = np_round N (np_mean N (map num_of (ndvi_values pts))) 3"
    if "generate_vegetation_summary N pts = Inr (Fields r)"
    using summary_Fields[OF that] .
  have e: "(case generate_vegetation_summary exact
           [map_of [(''date'', PStr ''2021-06-01''), (''NDVI'', PNum 0.1996)],
            map_of [(''date'', PStr ''2021-07-01''), (''NDVI'', PNum 0.2)]] of
      Inr (Fields r) \<Rightarrow>
        mean_ndvi r = 0.2 \<and> vigor_classification r = ''Low vegetation'' \<and>
        np_mean exact [0.1996, 0.2] = 0.1998 \<and>
        vigor_of 0.1998 = ''Sparse or no vegetation''
    | _ \<Rightarrow> False)"
    by (simp add: generate_vegetation_summary_def ndvi_values_def get_def np_array_def
        exact_defs vigor_of_def Let_def)
  have b: "(m < 0.2 \<longrightarrow> vigor_of m = ''Sparse or no vegetation'') \<and>
   (0.2 \<le> m \<and> m < 0.4 \<longrightarrow> vigor_of m = ''Low vegetation'') \<and>
   (0.4 \<le> m \<and> m < 0.6 \<longrightarrow> vigor_of m = ''Moderate vegetation'') \<and>
   (0.6 \<le> m \<and> m < 0.8 \<longrightarrow> vigor_of m = ''Healthy vegetation'') \<and>
   (0.8 \<le> m \<longrightarrow> vigor_of m = ''Very healthy/dense vegetation'')"
    by (simp add: vigor_of_def)
  have c: "map vigor_of [0.19, 0.2, 0.39, 0.4, 0.59, 0.6, 0.79, 0.8] =
     [''Sparse or no vegetation'', ''Low vegetation'', ''Low vegetation'',
      ''Moderate vegetation'', ''Moderate vegetation'', ''Healthy vegetation'',
      ''Healthy vegetation'', ''Very healthy/dense vegetation'']"
    by (simp add: vigor_of_def)
  from a e b c show ?thesis by blast
qed

theorem vigor_thresholds_witness:
  "\<exists>r. generate_vegetation_summary exact
          [map_of [(''date'', PStr ''2021-06-01''), (''NDVI'', PNum 0.3996)],
           map_of [(''date'', PStr ''2021-07-01''), (''NDVI'', PNum 0.4)]] = Inr (Fields r) \<and>
       mean_ndvi r = 0.4 \<and> vigor_classification r = ''Moderate vegetation'' \<and>
       vigor_of 0.3998 = ''Low vegetation''"
proof -
  let ?pts = "[map_of [(''date'', PStr ''2021-06-01''), (''NDVI'', PNum 0.3996)],
               map_of [(''date'', PStr ''2021-07-01''), (''NDVI'', PNum 0.4)]]"
  have "\<exists>r. generate_vegetation_summary exact ?pts = Inr (Fields r)"
    by (simp add: generate_vegetation_summary_def ndvi_values_def get_def np_array_def)
  then obtain r where r: "generate_vegetation_summary exact ?pts = Inr (Fields r)"
    by blast
  from vigor_thresholds[of exact ?pts r "0.4"] r
  have v: "vigor_classification r = vigor_of (mean_ndvi r)"
    and m: "mean_ndvi r = np_round exact (np_mean exact [0.3996, 0.4]) 3"
    by (simp_all add: ndvi_values_def get_def)
  from m have m4: "mean_ndvi r = 0.4"
    by (simp add: exact_defs)
  from v have "vigor_classification r = ''Moderate vegetation''"
    unfolding m4 by (simp add: vigor_of_def)
  moreover have "vigor_of 0.3998 = ''Low vegetation''"
    by (simp add: vigor_of_def)
  ultimately show ?thesis using r m4 by blast
qed

section \<open>The conversion to inches\<close>

text \<open>
  C8. Whenever the ET analyzer returns a report, \<^verbatim>\<open>total_et_inches\<close> is the product, by
  0.0393701, of the sum of the ET values rounded to a whole number, rounded to two
  decimals, the sum, the product and the roundings being those of the library; and
  \<^verbatim>\<open>total_et_mm\<close> is that rounded sum as an integer. The rounded total feeds the
  conversion, not the raw sum: on the single value 0.4, in exact arithmetic, the report
  has 0 inches, where the raw sum would give 0.02.
\<close>

theorem inches_from_rounded_total:
  "(snd (analyze_et_data N pts) = Inr (Fields r) \<and> ys = map num_of (et_values_of pts) \<longrightarrow>
      total_et_mm r = py_int (np_round N (np_sum N ys) 0) \<and>
      total_et_inches r = np_round N (f_mul N (np_round N (np_sum N ys) 0) 0.0393701) 2) \<and>
   (case snd (analyze_et_data exact
           [map_of [(''date'', PStr ''2021-06-01''), (''ET'', PNum 0.4)]]) of
      Inr (Fields r) \<Rightarrow>
        total_et_inches r = 0 \<and>
        np_round exact (f_mul exact (np_sum exact [0.4]) 0.0393701) 2 = 0.02
    | _ \<Rightarrow> False)"
proof -
  have a: "total_et_mm r = py_int (np_round N (np_sum N ys) 0) \<and>
      total_et_inches r = np_round N (f_mul N (np_round N (np_sum N ys) 0) 0.0393701) 2"
    if "snd (analyze_et_data N pts) = Inr (Fields r)" "ys = map num_of (et_values_of pts)"
    using analyze_report[OF that(1)] et_statistics_total that(2)
    by (auto simp add: mm_to_inches_def)
  have b: "(case snd (analyze_et_data exact
           [map_of [(''date'', PStr ''2021-06-01''), (''ET'', PNum 0.4)]]) of
      Inr (Fields r) \<Rightarrow>
        total_et_inches r = 0 \<and>
        np_round exact (f_mul exact (np_sum exact [0.4]) 0.0393701) 2 = 0.02
    | _ \<Rightarrow> False)"
    by (simp add: analyze_et_data_def date_defs stat_defs exact_defs Let_def)
  from a b show ?thesis by blast
qed

theorem inches_from_rounded_total_witness:
  "\<exists>r. snd (analyze_et_data exact
          [map_of [(''date'', PStr ''2021-06-01''), (''ET'', PNum 12.4)],
           map_of [(''date'', PStr ''2021-07-01''), (''ET'', PNum 13)]]) = Inr (Fields r) \<and>
       total_et_mm r = 25 \<and> total_et_inches r = 0.98 \<and>
       np_round exact (f_mul exact (np_sum exact [12.4, 13]) 0.0393701) 2 = 1"
proof -
  let ?pts = "[map_of [(''date'', PStr ''2021-06-01''), (''ET'', PNum 12.4)],
               map_of [(''date'', PStr ''2021-07-01''), (''ET'', PNum 13)]]"
  have "\<exists>r. snd (analyze_et_data exact ?pts) = Inr (Fields r)"
    by (simp add: analyze_et_data_def date_defs stat_defs Let_def)
  then obtain r where r: "snd (analyze_et_data exact ?pts) = Inr (Fields r)"
    by blast
  have e: "[12.4, 13] = map num_of (et_values_of ?pts)"
    by (simp add: et_values_of_def get_def)
  from inches_from_rounded_total[of exact ?pts r "[12.4, 13]"] r e
  have t: "total_et_mm r = py_int (np_round exact (np_sum exact [12.4, 13]) 0)"
    and i: "total_et_inches r
        = np_round exact (f_mul exact (np_round exact (np_sum exact [12.4, 13]) 0) 0.0393701) 2"
    by simp_all
  from t have t25: "total_et_mm r = 25"
    by (simp add: exact_defs py_int_def)
  from i have "total_et_inches r = 0.98"
    by (simp add: exact_defs)
  moreover have "np_round exact (f_mul exact (np_sum exact [12.4, 13]) 0.0393701) 2 = 1"
    by (simp add: exact_defs)
  ultimately show ?thesis using r t25 by blast
qed

section \<open>The extractor\<close>

text \<open>
  C9, as the code has it. On a raw input that is not a list the extractor does not
  raise: it returns a series without data points, with \<^verbatim>\<open>values_found\<close> 0 and the date
  range \<^verbatim>\<open>"N/A"\<close>, and it logs one record, at the level ERROR.
\<close>

theorem non_list_input_fails_soft:
  "map fst (fst (extract_variable_data N (RawObject obj) v loc)) = [ERROR] \<and>
   (\<exists>r. snd (extract_variable_data N (RawObject obj) v loc) = Inr r \<and>
        data_points r = [] \<and> values_found r = 0 \<and> date_range r = NA)"
  by (simp add: extract_variable_data_def)

text \<open>
  C9 as stated says that a warning is logged. On the error object
  \<^verbatim>\<open>{"detail": "Unauthorized"}\<close> no record of the log has the level WARNING
  (the code calls \<^verbatim>\<open>logger.error\<close>).
\<close>

theorem non_list_input_not_a_warning:
  "WARNING \<notin> set (map fst (fst (extract_variable_data exact
      (RawObject (map_of [(''detail'', PStr ''Unauthorized'')])) ''et'' ''0,0'')))"
  by (simp add: extract_variable_data_def)

text \<open>
  C10. Whenever the extractor returns a series for a list of records, \<^verbatim>\<open>values_found\<close>
  is the number of its data points, and the data points are, in the order of the input,
  the records whose \<^verbatim>\<open>'time'\<close> is truthy and whose value is not \<^verbatim>\<open>None\<close>, each as the
  dictionary of its date and its value. It does return one when every value is a
  number or \<^verbatim>\<open>None\<close>.
\<close>

theorem extracted_points_are_retained_records:
  "(extract_variable_data N (RawList items) v loc = (lg, Inr r) \<longrightarrow>
      values_found r = length (data_points r) \<and>
      data_points r =
        map (\<lambda>item. [''date'' \<mapsto> get item ''time'', upper v \<mapsto> get item (lower v)])
            (filter (\<lambda>item. truthy (get item ''time'') \<and> get item (lower v) \<noteq> PNone) items)) \<and>
   ((\<forall>item \<in> set items. get item (lower v) = PNone \<or> is_num (get item (lower v))) \<longrightarrow>
      (\<exists>lg r. extract_variable_data N (RawList items) v loc = (lg, Inr r)))"
proof -
  let ?keep = "\<lambda>item. truthy (get item ''time'') \<and> get item (lower v) \<noteq> PNone"
  have a: "values_found r = length (data_points r) \<and>
      data_points r =
        map (\<lambda>item. [''date'' \<mapsto> get item ''time'', upper v \<mapsto> get item (lower v)])
            (filter ?keep items)"
    if "extract_variable_data N (RawList items) v loc = (lg, Inr r)"
    using that
    by (auto simp add: extract_variable_data_def extract_loop_eq filter_not_none Let_def
        split: sum.splits if_splits)
  have b: "\<exists>lg r. extract_variable_data N (RawList items) v loc = (lg, Inr r)"
    if h: "\<forall>item \<in> set items. get item (lower v) = PNone \<or> is_num (get item (lower v))"
  proof -
    from h have "list_all is_num (map (\<lambda>item. get item (lower v)) (filter ?keep items))"
      by (auto simp add: list_all_iff)
    then have "np_array (map (\<lambda>item. get item (lower v)) (filter ?keep items))
        = Inr (map num_of (map (\<lambda>item. get item (lower v)) (filter ?keep items)))"
      by (rule np_array_total)
    then show ?thesis
      by (simp add: extract_variable_data_def extract_loop_eq filter_not_none Let_def)
  qed
  from a b show ?thesis by blast
qed

theorem extracted_points_are_retained_records_witness:
  "\<exists>lg r. extract_variable_data exact
     (RawList [map_of [(''time'', PStr ''2020-03-01''), (''et'', PNum 0)],
               map_of [(''time'', PStr ''''), (''et'', PNum 5)],
               map_of [(''time'', PStr ''2020-02-01''), (''et'', PNone)],
               map_of [(''time'', PStr ''2020-01-01''), (''et'', PNum 7)]]) ''et'' ''0,0''
       = (lg, Inr r) \<and>
     values_found r = 2 \<and> length (data_points r) = 2 \<and>
     data_points r = [[''date'' \<mapsto> PStr ''2020-03-01'', ''ET'' \<mapsto> PNum 0],
                      [''date'' \<mapsto> PStr ''2020-01-01'', ''ET'' \<mapsto> PNum 7]]"
proof -
  let ?items = "[map_of [(''time'', PStr ''2020-03-01''), (''et'', PNum 0)],
               map_of [(''time'', PStr ''''), (''et'', PNum 5)],
               map_of [(''time'', PStr ''2020-02-01''), (''et'', PNone)],
               map_of [(''time'', PStr ''2020-01-01''), (''et'', PNum 7)]]"
  have "\<forall>item \<in> set ?items. get item (lower ''et'') = PNone \<or> is_num (get item (lower ''et''))"
    by (simp add: get_def lower_def lower_char_def)
  with extracted_points_are_retained_records[of exact ?items "''et''" "''0,0''"]
  obtain lg r where r: "extract_variable_data exact (RawList ?items) ''et'' ''0,0'' = (lg, Inr r)"
    by blast
  from extracted_points_are_retained_records[of exact ?items "''et''" "''0,0''" lg r] r
  have "values_found r = length (data_points r) \<and>
     data_points r = [[''date'' \<mapsto> PStr ''2020-03-01'', ''ET'' \<mapsto> PNum 0],
                      [''date'' \<mapsto> PStr ''2020-01-01'', ''ET'' \<mapsto> PNum 7]]"
    by (simp add: get_def lower_def lower_char_def upper_def upper_char_def)
  with r show ?thesis by auto
qed

end
